theory Spec2Isabelle
  imports Complex_Main
begin

section \<open>The message queue of \<^verbatim>\<open>my_assistant/utils/message_queue.py\<close>\<close>

subsection \<open>Data\<close>

text \<open>
  A message is the dictionary \<^verbatim>\<open>{"text": ..., "timestamp": ..., "sender": ...}\<close> built by
  the two send methods. The field \<^verbatim>\<open>text\<close> carries a prime, since \<^verbatim>\<open>text\<close> is a
  keyword of the theory language.
\<close>

record message_data =
  text' :: string
  timestamp :: string
  sender :: string

text \<open>
  The attributes of class \<^verbatim>\<open>MessageQueue\<close>. The two deques are lists with the oldest
  message first (\<^verbatim>\<open>append\<close> adds at the right end, \<^verbatim>\<open>popleft\<close> takes from the left end).
  An \<^verbatim>\<open>asyncio.Event\<close> is modelled by its flag.
\<close>

record MessageQueue =
  agent_to_cs :: "message_data list"
  cs_to_agent :: "message_data list"
  agent_message_ready :: bool
  cs_response_ready :: bool
  conversation_history :: "message_data list"
  active :: bool

text \<open>\<^verbatim>\<open>MessageQueue.__init__\<close>.\<close>

definition init :: MessageQueue where
  "init = \<lparr>agent_to_cs = [], cs_to_agent = [], agent_message_ready = False,
     cs_response_ready = False, conversation_history = [], active = False\<rparr>"

text \<open>
  What a call of one of the two wait coroutines does, seen by its caller: it returns a
  string, it raises \<^verbatim>\<open>asyncio.TimeoutError\<close> with a message, or it is suspended on the
  event (and stays so until some send sets the event).
\<close>

datatype outcome = Returned string | TimeoutError string | Suspended

subsection \<open>Sending\<close>

text \<open>
  \<^verbatim>\<open>datetime.now().isoformat()\<close> is an input of the model: the parameter \<open>now\<close>.
\<close>

definition send_from_agent :: "string \<Rightarrow> string \<Rightarrow> MessageQueue \<Rightarrow> MessageQueue" where
  "send_from_agent now message q =
     (let message_data = \<lparr>text' = message, timestamp = now, sender = ''negotiation_agent''\<rparr>
      in q\<lparr>agent_to_cs := agent_to_cs q @ [message_data],
           conversation_history := conversation_history q @ [message_data],
           agent_message_ready := True,
           active := True\<rparr>)"

definition send_from_cs :: "string \<Rightarrow> string \<Rightarrow> MessageQueue \<Rightarrow> MessageQueue" where
  "send_from_cs now message q =
     (let message_data = \<lparr>text' = message, timestamp = now, sender = ''cs_simulator''\<rparr>
      in q\<lparr>cs_to_agent := cs_to_agent q @ [message_data],
           conversation_history := conversation_history q @ [message_data],
           cs_response_ready := True\<rparr>)"

subsection \<open>Waiting\<close>

text \<open>
  Python's truth value of the argument \<^verbatim>\<open>timeout: Optional[float]\<close>, as tested by
  \<^verbatim>\<open>if timeout:\<close>: \<^verbatim>\<open>None\<close> and \<^verbatim>\<open>0.0\<close> are false, every other number is true.
\<close>

definition truthy :: "real option \<Rightarrow> bool" where
  "truthy timeout = (case timeout of None \<Rightarrow> False | Some t \<Rightarrow> t \<noteq> 0)"

text \<open>A timeout that is absent or not negative.\<close>

definition nonnegative :: "real option \<Rightarrow> bool" where
  "nonnegative timeout = (case timeout of None \<Rightarrow> True | Some t \<Rightarrow> 0 \<le> t)"

text \<open>
  The first statement of both wait coroutines awaits the event, through
  \<^verbatim>\<open>asyncio.wait_for\<close> when the timeout is true and directly otherwise. With no other task
  running while the coroutine waits, the await has one of three ends:
  \<^item> the event is set: \<^verbatim>\<open>Event.wait\<close> returns at once and the coroutine goes on (under
    \<^verbatim>\<open>wait_for\<close> this needs a positive timeout: with a negative one \<^verbatim>\<open>wait_for\<close> cancels
    the inner wait before it starts and raises);
  \<^item> the event is not set and the timeout is true: \<^verbatim>\<open>wait_for\<close> raises
    \<^verbatim>\<open>asyncio.TimeoutError\<close> when the time has passed;
  \<^item> the event is not set and the timeout is false: the coroutine is suspended.
\<close>

datatype awaited = Proceeds | Raises | Suspends

definition await_ready :: "real option \<Rightarrow> bool \<Rightarrow> awaited" where
  "await_ready timeout ready =
     (if truthy timeout
      then (if ready \<and> 0 < the timeout then Proceeds else Raises)
      else (if ready then Proceeds else Suspends))"

text \<open>
  The statements after the await (lines 83 to 88 and 129 to 134): the queue is tested,
  and either its oldest message is popped, the event cleared and the text returned, or
  the empty string is returned. A coroutine that was suspended runs exactly these
  statements when it is resumed after a send has set the event.
\<close>

definition resume_cs_response :: "MessageQueue \<Rightarrow> outcome \<times> MessageQueue" where
  "resume_cs_response q =
     (if cs_to_agent q \<noteq> []
      then (Returned (text' (hd (cs_to_agent q))),
            q\<lparr>cs_to_agent := tl (cs_to_agent q), cs_response_ready := False\<rparr>)
      else (Returned '''', q))"

definition resume_agent_message :: "MessageQueue \<Rightarrow> outcome \<times> MessageQueue" where
  "resume_agent_message q =
     (if agent_to_cs q \<noteq> []
      then (Returned (text' (hd (agent_to_cs q))),
            q\<lparr>agent_to_cs := tl (agent_to_cs q), agent_message_ready := False\<rparr>)
      else (Returned '''', q))"

text \<open>
  The two wait coroutines. The \<^verbatim>\<open>except asyncio.TimeoutError\<close> clause raises the same
  exception again with a message of its own.
\<close>

definition wait_for_cs_response :: "real option \<Rightarrow> MessageQueue \<Rightarrow> outcome \<times> MessageQueue" where
  "wait_for_cs_response timeout q =
     (case await_ready timeout (cs_response_ready q) of
        Proceeds \<Rightarrow> resume_cs_response q
      | Raises \<Rightarrow> (TimeoutError ''Timeout waiting for CS response'', q)
      | Suspends \<Rightarrow> (Suspended, q))"

definition wait_for_agent_message :: "real option \<Rightarrow> MessageQueue \<Rightarrow> outcome \<times> MessageQueue" where
  "wait_for_agent_message timeout q =
     (case await_ready timeout (agent_message_ready q) of
        Proceeds \<Rightarrow> resume_agent_message q
      | Raises \<Rightarrow> (TimeoutError ''Timeout waiting for agent message'', q)
      | Suspends \<Rightarrow> (Suspended, q))"

subsection \<open>History and the conversation flag\<close>

definition get_conversation_history :: "MessageQueue \<Rightarrow> message_data list" where
  "get_conversation_history q = conversation_history q"

definition clear_history :: "MessageQueue \<Rightarrow> MessageQueue" where
  "clear_history q = q\<lparr>conversation_history := []\<rparr>"

definition is_active :: "MessageQueue \<Rightarrow> bool" where
  "is_active q = active q"

definition end_conversation :: "MessageQueue \<Rightarrow> MessageQueue" where
  "end_conversation q = q\<lparr>active := False\<rparr>"

subsection \<open>Sequences of operations\<close>

text \<open>
  Every step a task can take on the queue between two suspension points: a call of a
  method, or the resumption of a wait that was suspended. A step leaves a new state of
  the queue; what the step returned to its caller is given by the functions above.
\<close>

datatype op =
    Send_from_agent string string
  | Send_from_cs string string
  | Wait_for_cs_response "real option"
  | Wait_for_agent_message "real option"
  | Resume_cs_response
  | Resume_agent_message
  | Get_conversation_history
  | Clear_history
  | Is_active
  | End_conversation

fun apply_op :: "op \<Rightarrow> MessageQueue \<Rightarrow> MessageQueue" where
  "apply_op (Send_from_agent now message) q = send_from_agent now message q"
| "apply_op (Send_from_cs now message) q = send_from_cs now message q"
| "apply_op (Wait_for_cs_response timeout) q = snd (wait_for_cs_response timeout q)"
| "apply_op (Wait_for_agent_message timeout) q = snd (wait_for_agent_message timeout q)"
| "apply_op Resume_cs_response q = snd (resume_cs_response q)"
| "apply_op Resume_agent_message q = snd (resume_agent_message q)"
| "apply_op Get_conversation_history q = q"
| "apply_op Clear_history q = clear_history q"
| "apply_op Is_active q = q"
| "apply_op End_conversation q = end_conversation q"

fun run :: "op list \<Rightarrow> MessageQueue \<Rightarrow> MessageQueue" where
  "run [] q = q"
| "run (x # xs) q = run xs (apply_op x q)"

text \<open>The sends among the operations, and the messages they build, in call order.\<close>

fun is_send :: "op \<Rightarrow> bool" where
  "is_send (Send_from_agent now message) = True"
| "is_send (Send_from_cs now message) = True"
| "is_send x = False"

fun sent :: "op list \<Rightarrow> message_data list" where
  "sent [] = []"
| "sent (Send_from_agent now message # xs) =
     \<lparr>text' = message, timestamp = now, sender = ''negotiation_agent''\<rparr> # sent xs"
| "sent (Send_from_cs now message # xs) =
     \<lparr>text' = message, timestamp = now, sender = ''cs_simulator''\<rparr> # sent xs"
| "sent (x # xs) = sent xs"

text \<open>
  The number of sends made after the last \<^verbatim>\<open>clear_history\<close>, counted from \<open>n\<close> when the
  operations hold no \<^verbatim>\<open>clear_history\<close>.
\<close>

fun sends_since_clear :: "op list \<Rightarrow> nat \<Rightarrow> nat" where
  "sends_since_clear [] n = n"
| "sends_since_clear (Clear_history # xs) n = sends_since_clear xs 0"
| "sends_since_clear (x # xs) n = sends_since_clear xs (if is_send x then Suc n else n)"

text \<open>The operations that wait: the calls of the two wait coroutines and their resumptions.\<close>

fun is_wait :: "op \<Rightarrow> bool" where
  "is_wait (Wait_for_cs_response timeout) = True"
| "is_wait (Wait_for_agent_message timeout) = True"
| "is_wait Resume_cs_response = True"
| "is_wait Resume_agent_message = True"
| "is_wait x = False"

subsection \<open>Several tasks waiting for an agent message\<close>








section \<open>Properties\<close>

lemmas queue_defs =
  init_def send_from_agent_def send_from_cs_def truthy_def nonnegative_def await_ready_def
  resume_cs_response_def resume_agent_message_def wait_for_cs_response_def
  wait_for_agent_message_def get_conversation_history_def clear_history_def is_active_def
  end_conversation_def Let_def

lemma run_append: "run (xs @ ys) q = run ys (run xs q)"
  by (induction xs arbitrary: q) simp_all

subsection \<open>Timeout zero\<close>

text \<open>
  C8. A wait called with timeout 0 does what a wait with no timeout does, in both
  directions: the test \<^verbatim>\<open>if timeout:\<close> is false, so \<^verbatim>\<open>asyncio.wait_for\<close> is not used. The
  call goes on at once when the event is set and is suspended otherwise; it never raises
  \<^verbatim>\<open>asyncio.TimeoutError\<close>.
\<close>

theorem zero_timeout_is_no_timeout:
  "wait_for_cs_response (Some 0) q = wait_for_cs_response None q
   \<and> wait_for_agent_message (Some 0) q = wait_for_agent_message None q
   \<and> wait_for_cs_response (Some 0) q =
       (if cs_response_ready q then resume_cs_response q else (Suspended, q))
   \<and> wait_for_agent_message (Some 0) q =
       (if agent_message_ready q then resume_agent_message q else (Suspended, q))
   \<and> (\<forall>e. fst (wait_for_cs_response (Some 0) q) \<noteq> TimeoutError e)
   \<and> (\<forall>e. fst (wait_for_agent_message (Some 0) q) \<noteq> TimeoutError e)"
proof -
  have a: "await_ready (Some 0) r = await_ready None r" for r
    by (simp add: await_ready_def truthy_def)
  have cs: "wait_for_cs_response (Some 0) q = wait_for_cs_response None q"
    by (simp add: wait_for_cs_response_def a)
  have ag: "wait_for_agent_message (Some 0) q = wait_for_agent_message None q"
    by (simp add: wait_for_agent_message_def a)
  have cs': "wait_for_cs_response None q =
      (if cs_response_ready q then resume_cs_response q else (Suspended, q))"
    by (simp add: wait_for_cs_response_def await_ready_def truthy_def)
  have ag': "wait_for_agent_message None q =
      (if agent_message_ready q then resume_agent_message q else (Suspended, q))"
    by (simp add: wait_for_agent_message_def await_ready_def truthy_def)
  have ne_cs: "fst (wait_for_cs_response None q) \<noteq> TimeoutError e" for e
    by (simp add: cs' resume_cs_response_def)
  have ne_ag: "fst (wait_for_agent_message None q) \<noteq> TimeoutError e" for e
    by (simp add: ag' resume_agent_message_def)
  show ?thesis
    using cs ag cs' ag' ne_cs ne_ag by simp
qed

text \<open>
  C10. For every state of the queue, \<^verbatim>\<open>clear_history\<close> leaves the history empty and
  changes nothing else: both pending queues, both events and the active flag are as
  before.
\<close>

theorem clear_history_frame:
  "conversation_history (clear_history q) = []
   \<and> agent_to_cs (clear_history q) = agent_to_cs q
   \<and> cs_to_agent (clear_history q) = cs_to_agent q
   \<and> agent_message_ready (clear_history q) = agent_message_ready q
   \<and> cs_response_ready (clear_history q) = cs_response_ready q
   \<and> active (clear_history q) = active q"
  by (simp add: clear_history_def)

subsection \<open>The event is cleared at every pop\<close>

text \<open>
  C9. In both directions, a wait that finds the event set and the queue not empty pops
  the oldest message, returns its text and clears the event, whatever else is pending.
  When more messages were pending, the state it leaves has a queue that is not empty and
  an event that is not set, and a further wait with no timeout is suspended there
  instead of returning the pending message.
\<close>

theorem pop_clears_event:
  assumes "nonnegative timeout"
  shows "(agent_message_ready q \<and> agent_to_cs q = m # rest \<longrightarrow>
            wait_for_agent_message timeout q =
              (Returned (text' m), q\<lparr>agent_to_cs := rest, agent_message_ready := False\<rparr>)
            \<and> (rest \<noteq> [] \<longrightarrow>
                 wait_for_agent_message None (snd (wait_for_agent_message timeout q)) =
                   (Suspended, q\<lparr>agent_to_cs := rest, agent_message_ready := False\<rparr>)))
       \<and> (cs_response_ready q \<and> cs_to_agent q = m # rest \<longrightarrow>
            wait_for_cs_response timeout q =
              (Returned (text' m), q\<lparr>cs_to_agent := rest, cs_response_ready := False\<rparr>)
            \<and> (rest \<noteq> [] \<longrightarrow>
                 wait_for_cs_response None (snd (wait_for_cs_response timeout q)) =
                   (Suspended, q\<lparr>cs_to_agent := rest, cs_response_ready := False\<rparr>)))"
proof -
  have go: "await_ready timeout True = Proceeds"
    using assms by (cases timeout) (auto simp: await_ready_def truthy_def nonnegative_def)
  have stay: "await_ready None False = Suspends"
    by (simp add: await_ready_def truthy_def)
  show ?thesis
    by (simp add: wait_for_agent_message_def wait_for_cs_response_def go stay
        resume_agent_message_def resume_cs_response_def)
qed

theorem pop_clears_event_witness:
  "nonnegative None
   \<and> wait_for_agent_message None
        (run [Send_from_agent ''t1'' ''A'', Send_from_agent ''t2'' ''B''] init) =
       (Returned ''A'',
        \<lparr>agent_to_cs = [\<lparr>text' = ''B'', timestamp = ''t2'', sender = ''negotiation_agent''\<rparr>],
         cs_to_agent = [], agent_message_ready = False, cs_response_ready = False,
         conversation_history =
           [\<lparr>text' = ''A'', timestamp = ''t1'', sender = ''negotiation_agent''\<rparr>,
            \<lparr>text' = ''B'', timestamp = ''t2'', sender = ''negotiation_agent''\<rparr>],
         active = True\<rparr>)
   \<and> fst (wait_for_agent_message None (snd (wait_for_agent_message None
        (run [Send_from_agent ''t1'' ''A'', Send_from_agent ''t2'' ''B''] init)))) = Suspended"
proof -
  have n: "nonnegative None"
    by (simp add: nonnegative_def)
  show ?thesis
    using n pop_clears_event [OF n,
        of "run [Send_from_agent ''t1'' ''A'', Send_from_agent ''t2'' ''B''] init"
           "\<lparr>text' = ''A'', timestamp = ''t1'', sender = ''negotiation_agent''\<rparr>"
           "[\<lparr>text' = ''B'', timestamp = ''t2'', sender = ''negotiation_agent''\<rparr>]"]
    by (simp add: queue_defs)
qed

subsection \<open>The conversation flag\<close>

text \<open>
  Only \<^verbatim>\<open>end_conversation\<close> resets the flag: every other operation leaves a flag that is
  set as it is.
\<close>

lemma active_reset_only_by_end_conversation:
  "active q \<Longrightarrow> x \<noteq> End_conversation \<Longrightarrow> active (apply_op x q)"
  by (cases x) (auto simp: queue_defs Let_def split: awaited.splits)

text \<open>
  C6. The flag is set by a send of the agent, in every state. A send of the customer
  service does not write it: the flag stays as it was, so that on a new queue whose
  first send is \<^verbatim>\<open>send_from_cs\<close> the conversation is still reported inactive.
\<close>

theorem send_from_cs_leaves_flag:
  "is_active (send_from_agent now message q)
   \<and> active (send_from_cs now message q) = active q
   \<and> is_active (send_from_cs now message init) = False
   \<and> is_active (run [Send_from_cs ''2026-01-01T10:00:00'' ''hello''] init) = False"
  by (simp add: queue_defs Let_def)

subsection \<open>The history\<close>

lemma history_apply_op:
  "conversation_history (apply_op x q) =
     (if x = Clear_history then [] else conversation_history q @ sent [x])"
  by (cases x) (auto simp: queue_defs Let_def split: awaited.splits)

lemma sent_Cons: "sent (x # xs) = sent [x] @ sent xs"
  by (cases x) simp_all

lemma length_sent: "length (sent xs) = length (filter is_send xs)"
  by (induction xs rule: sent.induct) simp_all

lemma history_run_no_clear:
  "Clear_history \<notin> set xs \<Longrightarrow>
     conversation_history (run xs q) = conversation_history q @ sent xs"
proof (induction xs arbitrary: q)
  case Nil
  show ?case by simp
next
  case (Cons x xs)
  from Cons.prems have "x \<noteq> Clear_history" and "Clear_history \<notin> set xs"
    by auto
  then show ?case
    using Cons.IH [of "apply_op x q"] sent_Cons [of x xs] by (simp add: history_apply_op)
qed

lemma history_length_run:
  "length (conversation_history (run xs q)) =
     sends_since_clear xs (length (conversation_history q))"
proof (induction xs arbitrary: q)
  case Nil
  show ?case by simp
next
  case (Cons x xs)
  have "length (conversation_history (apply_op x q)) =
      (if x = Clear_history then 0
       else if is_send x then Suc (length (conversation_history q))
       else length (conversation_history q))"
    using history_apply_op [of x q] by (cases x) simp_all
  then show ?case
    using Cons.IH [of "apply_op x q"] by (cases x) simp_all
qed

text \<open>
  C5, as the code has it. \<^verbatim>\<open>clear_history\<close> is an operation of the queue and empties the
  history. In a sequence of operations with no \<^verbatim>\<open>clear_history\<close> the history is the
  history at the start followed by one entry for each send, in call order: nothing is
  removed, also not by a wait that takes the message from its queue, and the length grows
  by the number of sends. In any sequence the length of the history is the number of
  sends made since the last \<^verbatim>\<open>clear_history\<close> (added to the length at the start when
  there was none).
\<close>

theorem history_grows_by_sends:
  "length (conversation_history (run xs q)) =
     sends_since_clear xs (length (conversation_history q))
   \<and> (Clear_history \<notin> set xs \<longrightarrow>
        conversation_history (run xs q) = conversation_history q @ sent xs
        \<and> length (conversation_history (run xs q)) =
            length (conversation_history q) + length (filter is_send xs))"
  using history_length_run [of xs q] history_run_no_clear [of xs q] length_sent [of xs]
  by simp

theorem history_grows_by_sends_witness:
  "Clear_history \<notin> set [Send_from_agent ''t1'' ''a'', Wait_for_agent_message None,
       Send_from_cs ''t2'' ''b'']
   \<and> conversation_history (run [Send_from_agent ''t1'' ''a'', Wait_for_agent_message None,
       Send_from_cs ''t2'' ''b''] init) =
       [\<lparr>text' = ''a'', timestamp = ''t1'', sender = ''negotiation_agent''\<rparr>,
        \<lparr>text' = ''b'', timestamp = ''t2'', sender = ''cs_simulator''\<rparr>]
   \<and> length (conversation_history (run [Send_from_agent ''t1'' ''a'',
       Wait_for_agent_message None, Send_from_cs ''t2'' ''b''] init)) = 2"
  using history_grows_by_sends [of "[Send_from_agent ''t1'' ''a'', Wait_for_agent_message None,
       Send_from_cs ''t2'' ''b'']" init]
  by (simp add: init_def)

text \<open>
  The claim C5 as it is written fails: after one send and a \<^verbatim>\<open>clear_history\<close> the
  history is empty, and one send has been made.
\<close>

theorem history_length_counterexample:
  "length (conversation_history (run [Send_from_agent ''t1'' ''a'', Clear_history] init))
     \<noteq> length (filter is_send [Send_from_agent ''t1'' ''a'', Clear_history])
   \<and> conversation_history (run [Send_from_agent ''t1'' ''a'', Clear_history] init) = []"
  by (simp add: queue_defs)

lemma history_run_waits:
  "\<forall>x \<in> set ws. is_wait x \<Longrightarrow> conversation_history (run ws q) = conversation_history q"
proof (induction ws arbitrary: q)
  case Nil
  show ?case by simp
next
  case (Cons x ws)
  from Cons.prems have "is_wait x" by simp
  then have "conversation_history (apply_op x q) = conversation_history q"
    using history_apply_op [of x q] by (cases x) simp_all
  with Cons show ?case by simp
qed

text \<open>
  C2. On a new queue, \<^verbatim>\<open>send_from_agent(a)\<close>, \<^verbatim>\<open>send_from_cs(b)\<close> and
  \<^verbatim>\<open>send_from_agent(c)\<close> in this order give the history \<open>[a, b, c]\<close> with the senders
  agent, customer service, agent, whatever waits (calls or resumptions, in either
  direction, with any timeout) run before, between and after the three sends.
\<close>

theorem history_complete_in_call_order:
  assumes "\<forall>x \<in> set (w0 @ w1 @ w2 @ w3). is_wait x"
  shows "get_conversation_history
           (run (w0 @ [Send_from_agent t1 a] @ w1 @ [Send_from_cs t2 b] @ w2
                 @ [Send_from_agent t3 c] @ w3) init) =
         [\<lparr>text' = a, timestamp = t1, sender = ''negotiation_agent''\<rparr>,
          \<lparr>text' = b, timestamp = t2, sender = ''cs_simulator''\<rparr>,
          \<lparr>text' = c, timestamp = t3, sender = ''negotiation_agent''\<rparr>]"
proof -
  from assms have w: "\<forall>x \<in> set w0. is_wait x" "\<forall>x \<in> set w1. is_wait x"
    "\<forall>x \<in> set w2. is_wait x" "\<forall>x \<in> set w3. is_wait x"
    by auto
  have h0: "conversation_history (run w0 init) = []"
    using history_run_waits [OF w(1), of init] by (simp add: init_def)
  have ha: "conversation_history (send_from_agent now message q) =
      conversation_history q @ [\<lparr>text' = message, timestamp = now, sender = ''negotiation_agent''\<rparr>]"
    for now message q
    by (simp add: send_from_agent_def Let_def)
  have hc: "conversation_history (send_from_cs now message q) =
      conversation_history q @ [\<lparr>text' = message, timestamp = now, sender = ''cs_simulator''\<rparr>]"
    for now message q
    by (simp add: send_from_cs_def Let_def)
  show ?thesis
    by (simp add: get_conversation_history_def run_append history_run_waits [OF w(2)]
        history_run_waits [OF w(3)] history_run_waits [OF w(4)] h0 ha hc)
qed

theorem history_complete_in_call_order_witness:
  "list_all is_wait ([Wait_for_cs_response (Some 1)] @ [Wait_for_agent_message None] @ []
        @ [Wait_for_agent_message None, Wait_for_cs_response None])
   \<and> map text' (get_conversation_history
        (run ([Wait_for_cs_response (Some 1)] @ [Send_from_agent ''t1'' ''a'']
              @ [Wait_for_agent_message None] @ [Send_from_cs ''t2'' ''b''] @ []
              @ [Send_from_agent ''t3'' ''c'']
              @ [Wait_for_agent_message None, Wait_for_cs_response None]) init)) =
       [''a'', ''b'', ''c'']
   \<and> map sender (get_conversation_history
        (run ([Wait_for_cs_response (Some 1)] @ [Send_from_agent ''t1'' ''a'']
              @ [Wait_for_agent_message None] @ [Send_from_cs ''t2'' ''b''] @ []
              @ [Send_from_agent ''t3'' ''c'']
              @ [Wait_for_agent_message None, Wait_for_cs_response None]) init)) =
       [''negotiation_agent'', ''cs_simulator'', ''negotiation_agent'']"
proof -
  have w: "\<forall>x \<in> set ([Wait_for_cs_response (Some 1)] @ [Wait_for_agent_message None] @ []
        @ [Wait_for_agent_message None, Wait_for_cs_response None]). is_wait x"
    by simp
  show ?thesis
    using w history_complete_in_call_order [OF w, of "''t1''" "''a''" "''t2''" "''b''"
        "''t3''" "''c''"]
    by simp
qed

subsection \<open>Timeouts\<close>

text \<open>
  A wait that raises \<^verbatim>\<open>asyncio.TimeoutError\<close> leaves the queue in the state it had before
  the wait, in both directions.
\<close>

lemma wait_for_cs_response_timeout_frame:
  "fst (wait_for_cs_response timeout q) = TimeoutError e \<Longrightarrow>
     snd (wait_for_cs_response timeout q) = q"
  by (auto simp: wait_for_cs_response_def resume_cs_response_def
      split: awaited.splits if_splits)

lemma wait_for_agent_message_timeout_frame:
  "fst (wait_for_agent_message timeout q) = TimeoutError e \<Longrightarrow>
     snd (wait_for_agent_message timeout q) = q"
  by (auto simp: wait_for_agent_message_def resume_agent_message_def
      split: awaited.splits if_splits)

text \<open>
  C3, on the code. On a new queue the agent sends \<open>A\<close> and \<open>B\<close>, and a wait returns \<open>A\<close>
  and clears the event while \<open>B\<close> is pending. A wait with timeout 1 then times out: it
  raises and leaves the queue as it is, with \<open>B\<close> still pending. After one more send,
  of \<open>C\<close>, a wait with no timeout returns the pending \<open>B\<close> and not the message that was
  sent after the timed-out wait.
\<close>

theorem timed_out_wait_then_send:
  "fst (wait_for_agent_message None
         (run [Send_from_agent ''t1'' ''A'', Send_from_agent ''t2'' ''B''] init))
     = Returned ''A''
   \<and> wait_for_agent_message (Some 1)
       (run [Send_from_agent ''t1'' ''A'', Send_from_agent ''t2'' ''B'',
             Wait_for_agent_message None] init) =
       (TimeoutError ''Timeout waiting for agent message'',
        run [Send_from_agent ''t1'' ''A'', Send_from_agent ''t2'' ''B'',
             Wait_for_agent_message None] init)
   \<and> map text' (agent_to_cs (run [Send_from_agent ''t1'' ''A'', Send_from_agent ''t2'' ''B'',
             Wait_for_agent_message None] init)) = [''B'']
   \<and> fst (wait_for_agent_message None (send_from_agent ''t3'' ''C''
        (snd (wait_for_agent_message (Some 1)
           (run [Send_from_agent ''t1'' ''A'', Send_from_agent ''t2'' ''B'',
                 Wait_for_agent_message None] init))))) = Returned ''B''
   \<and> fst (wait_for_agent_message None (send_from_agent ''t3'' ''C''
        (snd (wait_for_agent_message (Some 1)
           (run [Send_from_agent ''t1'' ''A'', Send_from_agent ''t2'' ''B'',
                 Wait_for_agent_message None] init))))) \<noteq> Returned ''C''"
  by (simp add: queue_defs)

subsection \<open>Waking with an empty queue\<close>

text \<open>
  C4, as the code has it. In both directions, a wait that goes on past the await while
  the queue is empty ends at once: it returns the empty string and leaves the queue as
  it is. This holds for a call that finds the event set and for a suspended wait that is
  resumed; the wait is not entered again.
\<close>

theorem wake_on_empty_queue_returns_empty:
  assumes "nonnegative timeout"
  shows "(agent_message_ready q \<and> agent_to_cs q = [] \<longrightarrow>
            wait_for_agent_message timeout q = (Returned [], q))
       \<and> (agent_to_cs q = [] \<longrightarrow> resume_agent_message q = (Returned [], q))
       \<and> (cs_response_ready q \<and> cs_to_agent q = [] \<longrightarrow>
            wait_for_cs_response timeout q = (Returned [], q))
       \<and> (cs_to_agent q = [] \<longrightarrow> resume_cs_response q = (Returned [], q))"
proof -
  have go: "await_ready timeout True = Proceeds"
    using assms by (cases timeout) (auto simp: await_ready_def truthy_def nonnegative_def)
  show ?thesis
    by (simp add: wait_for_agent_message_def wait_for_cs_response_def go
        resume_agent_message_def resume_cs_response_def)
qed

theorem wake_on_empty_queue_returns_empty_witness:
  "nonnegative (Some 5)
   \<and> wait_for_agent_message (Some 5) (init\<lparr>agent_message_ready := True, cs_response_ready := True\<rparr>)
       = (Returned [], init\<lparr>agent_message_ready := True, cs_response_ready := True\<rparr>)
   \<and> wait_for_cs_response (Some 5) (init\<lparr>agent_message_ready := True, cs_response_ready := True\<rparr>)
       = (Returned [], init\<lparr>agent_message_ready := True, cs_response_ready := True\<rparr>)
   \<and> resume_agent_message (init\<lparr>agent_message_ready := True, cs_response_ready := True\<rparr>)
       = (Returned [], init\<lparr>agent_message_ready := True, cs_response_ready := True\<rparr>)"
proof -
  have n: "nonnegative (Some 5)"
    by (simp add: nonnegative_def)
  show ?thesis
    using n wake_on_empty_queue_returns_empty [OF n,
        of "init\<lparr>agent_message_ready := True, cs_response_ready := True\<rparr>"]
    by (simp add: init_def)
qed

text \<open>
  The claim C4 as it is written fails: with the event set and the queue empty, a wait
  with no timeout is not suspended, it returns the empty string. The same happens to a
  waiter that is resumed after another waiter has taken the only message.
\<close>

theorem spurious_wake_counterexample:
  "wait_for_agent_message None (init\<lparr>agent_message_ready := True\<rparr>) =
     (Returned [], init\<lparr>agent_message_ready := True\<rparr>)
   \<and> fst (wait_for_agent_message None (init\<lparr>agent_message_ready := True\<rparr>)) \<noteq> Suspended
   \<and> wait_for_cs_response None (init\<lparr>cs_response_ready := True\<rparr>) =
     (Returned [], init\<lparr>cs_response_ready := True\<rparr>)
   \<and> fst (wait_for_cs_response None (init\<lparr>cs_response_ready := True\<rparr>)) \<noteq> Suspended
   \<and> fst (resume_agent_message
        (run [Send_from_agent ''t1'' ''ping'', Resume_agent_message] init)) = Returned []"
  by (simp add: queue_defs)

subsection \<open>Delivery order\<close>

text \<open>
  C1, on the code. After three sends of the agent on a new queue, the first wait returns
  the first message and clears the event although two messages are pending. The second
  wait is then suspended when it has no timeout, and raises when it has a positive one:
  the second and third message are not delivered. The same holds for three sends of the
  customer service.
\<close>

theorem three_sends_then_waits:
  "fst (wait_for_agent_message None
         (run [Send_from_agent t1 a, Send_from_agent t2 b, Send_from_agent t3 c] init))
     = Returned a
   \<and> map text' (agent_to_cs (snd (wait_for_agent_message None
         (run [Send_from_agent t1 a, Send_from_agent t2 b, Send_from_agent t3 c] init))))
     = [b, c]
   \<and> fst (wait_for_agent_message None (snd (wait_for_agent_message None
         (run [Send_from_agent t1 a, Send_from_agent t2 b, Send_from_agent t3 c] init))))
     = Suspended
   \<and> fst (wait_for_agent_message (Some 300) (snd (wait_for_agent_message None
         (run [Send_from_agent t1 a, Send_from_agent t2 b, Send_from_agent t3 c] init))))
     = TimeoutError ''Timeout waiting for agent message''
   \<and> fst (wait_for_cs_response None
         (run [Send_from_cs t1 a, Send_from_cs t2 b, Send_from_cs t3 c] init))
     = Returned a
   \<and> fst (wait_for_cs_response None (snd (wait_for_cs_response None
         (run [Send_from_cs t1 a, Send_from_cs t2 b, Send_from_cs t3 c] init))))
     = Suspended"
  by (simp add: queue_defs)

subsection \<open>Two waiters and one message\<close>




end
